theory Spec2Isabelle
  imports Main
begin

section \<open>Characters, strings and the output stream\<close>

text \<open>
  A shallow embedding of \<^verbatim>\<open>include/tesuji/container_io.hpp\<close> for narrow
  characters (\<^verbatim>\<open>Char = Char2 = char\<close>, where \<^verbatim>\<open>convert_string\<close> is the
  identity). A \<^verbatim>\<open>std::string\<close> is a list of bytes and may hold the byte 0.
\<close>

abbreviation (input) backslash :: char where
  "backslash \<equiv> CHR 0x5C"

abbreviation (input) NUL :: char where
  "NUL \<equiv> CHR 0x00"

abbreviation (input) apostrophe :: char where
  "apostrophe \<equiv> CHR 0x27"

text \<open>\<^verbatim>\<open>s.c_str()\<close> read as a C string: the characters before the first byte 0.\<close>

definition c_str :: "string \<Rightarrow> string" where
  "c_str s = takeWhile (\<lambda>c. c \<noteq> NUL) s"

text \<open>
  What a call can end with instead of returning: the \<^verbatim>\<open>std::regex_error\<close> thrown
  by the constructor of \<^verbatim>\<open>std::basic_regex\<close>, a regular expression that this
  model does not cover, or the \<^verbatim>\<open>std::ios_base::failure\<close> that an inserter throws on
  a stream whose exception mask asks for it.
\<close>

datatype failure = Regex_error | Not_modelled | Ios_failure

text \<open>
  \<^verbatim>\<open>std::basic_ostream\<close> belongs to the standard library, not to the header. The
  header reads and changes a stream through four inserters of the library only, and they
  are parameters of the model: \<open>'s\<close> is the type of the states of a stream (the
  characters written, the format flags, the field width and fill, the locale, the error
  state), and an inserter takes a state to the next one, or throws. The inserter for
  \<^verbatim>\<open>const char*\<close> is given the characters before the terminating byte 0.
\<close>

record 's library =
  out_c_str :: "'s \<Rightarrow> string \<Rightarrow> failure + 's"
  out_string :: "'s \<Rightarrow> string \<Rightarrow> failure + 's"
  out_int :: "'s \<Rightarrow> int \<Rightarrow> failure + 's"
  out_bool :: "'s \<Rightarrow> bool \<Rightarrow> failure + 's"

text \<open>\<^verbatim>\<open>os << s.c_str()\<close>.\<close>

definition put_c_str :: "'s library \<Rightarrow> 's \<Rightarrow> string \<Rightarrow> failure + 's" where
  "put_c_str lib os s = out_c_str lib os (c_str s)"


section \<open>Regular expressions as the header uses them\<close>

text \<open>
  The character class \<^verbatim>\<open>[-[\]{}()*+?.,\^$|#\s]\<close> of \<^verbatim>\<open>regex_escape\<close>. Inside the
  brackets \<^verbatim>\<open>\]\<close> is the bracket and \<^verbatim>\<open>\^\<close> the caret, so the backslash itself is
  not in the class; \<^verbatim>\<open>\s\<close> is the white space of the C locale.
\<close>

definition specialChars :: "char \<Rightarrow> bool" where
  "specialChars c \<longleftrightarrow>
     c \<in> set ''-[]{}()*+?.,^$|#'' \<or>
     c \<in> set [CHR '' '', CHR 0x09, CHR 0x0A, CHR 0x0B, CHR 0x0C, CHR 0x0D]"

text \<open>
  \<^verbatim>\<open>regex_escape\<close>: \<^verbatim>\<open>std::regex_replace(value, specialChars, "\$&")\<close>. The
  format \<^verbatim>\<open>\$&\<close> is a backslash followed by the matched text; the regular
  expression matches one character at a time.
\<close>

fun regex_escape :: "string \<Rightarrow> string" where
  "regex_escape [] = []"
| "regex_escape (c # cs) =
     (if specialChars c then backslash # c # regex_escape cs else c # regex_escape cs)"

text \<open>
  The syntax characters of the ECMAScript grammar, and the characters that after a
  backslash start a class escape, a control escape or a back reference instead of
  standing for themselves.
\<close>

definition syntax_char :: "char \<Rightarrow> bool" where
  "syntax_char c \<longleftrightarrow> c \<in> set ''^$.*+?()[]{}|'' \<or> c = backslash"

definition identifier_char :: "char \<Rightarrow> bool" where
  "identifier_char c \<longleftrightarrow>
     c \<in> set ''abcdefghijklmnopqrstuvwxyzABCDEFGHIJKLMNOPQRSTUVWXYZ0123456789_''"

text \<open>
  Constructing a \<^verbatim>\<open>std::basic_regex\<close> from a pattern. A pattern made of ordinary
  characters and identity escapes (a backslash and a character that is no letter, digit
  or underscore) matches exactly one literal string, which is the result here. A pattern
  of such items that ends in a lone backslash is rejected by the constructor. Any other
  pattern (an unescaped syntax character, a class escape, a back reference) is outside
  the model.
\<close>

fun basic_regex :: "string \<Rightarrow> failure + string" where
  "basic_regex [] = Inr []"
| "basic_regex (c # cs) =
     (if c = backslash then
        (case cs of
           [] \<Rightarrow> Inl Regex_error
         | e # cs' \<Rightarrow>
             if identifier_char e then Inl Not_modelled
             else map_sum id ((#) e) (basic_regex cs'))
      else if syntax_char c then Inl Not_modelled
      else map_sum id ((#) c) (basic_regex cs))"

text \<open>
  \<^verbatim>\<open>std::regex_replace(value, re, "\$&")\<close> for a regular expression that matches
  the literal string \<open>re\<close>: every match, found left to right without overlap, is
  replaced by a backslash followed by the match. The empty regular expression matches
  the empty string before every character and at the end.
\<close>

function regex_replace :: "string \<Rightarrow> string \<Rightarrow> string" where
  "regex_replace [] re = (if re = [] then [backslash] else [])"
| "regex_replace (c # cs) re =
     (if re = [] then backslash # c # regex_replace cs re
      else if take (length re) (c # cs) = re
      then backslash # re @ regex_replace (drop (length re) (c # cs)) re
      else c # regex_replace cs re)"
  by pat_completeness auto
termination
  by (relation "measure (\<lambda>(v, re). length v)") auto


section \<open>The string decorator\<close>

text \<open>
  Lines 120 to 128 of \<^verbatim>\<open>decorate_string\<close>: the two regular expressions and the
  two replacements, the backslash first. The result is the local \<^verbatim>\<open>value\<close>
  before it is written; the constructor of \<^verbatim>\<open>delimRe\<close> may throw.
\<close>

definition escaped_value :: "string \<Rightarrow> string \<Rightarrow> failure + string" where
  "escaped_value value stringDelimiter =
     (let escapedStringDelimiter = regex_escape stringDelimiter
      in case basic_regex escapedStringDelimiter of
           Inl e \<Rightarrow> Inl e
         | Inr delimRe \<Rightarrow>
             (case basic_regex [backslash, backslash] of
                Inl e \<Rightarrow> Inl e
              | Inr escapeRe \<Rightarrow>
                  (let value1 = regex_replace value escapeRe;
                       value2 = regex_replace value1 delimRe
                   in Inr value2)))"

text \<open>
  \<^verbatim>\<open>decorate_string\<close> for a \<^verbatim>\<open>std::basic_string\<close>: the delimiter, the escaped
  value and the delimiter, each written as a C string (lines 130 to 132).
\<close>

definition decorate_string :: "'s library \<Rightarrow> 's \<Rightarrow> string \<Rightarrow> string \<Rightarrow> failure + 's" where
  "decorate_string lib os value stringDelimiter =
     (case escaped_value value stringDelimiter of
        Inl e \<Rightarrow> Inl e
      | Inr value2 \<Rightarrow>
          (case put_c_str lib os stringDelimiter of
             Inl e \<Rightarrow> Inl e
           | Inr os1 \<Rightarrow>
               (case put_c_str lib os1 value2 of
                  Inl e \<Rightarrow> Inl e
                | Inr os2 \<Rightarrow> put_c_str lib os2 stringDelimiter)))"


section \<open>Values that can be written\<close>

text \<open>
  The class templates of the first \<^verbatim>\<open>DEFINE_OSTREAM_OPERATOR\<close> group (lines 331
  to 338) and of the second (lines 369 to 372).
\<close>

datatype container_template =
  Std_vector | Std_deque | Std_forward_list | Std_list
| Std_set | Std_multiset | Std_unordered_set | Std_unordered_multiset

datatype assoc_template =
  Std_map | Std_multimap | Std_unordered_map | Std_unordered_multimap

text \<open>
  A value of a type the inserters accept: an \<^verbatim>\<open>int\<close>, a \<^verbatim>\<open>bool\<close>, a
  \<^verbatim>\<open>std::string\<close>, a \<^verbatim>\<open>const char*\<close> (the bytes it points to), or a container
  with its elements in iteration order. A \<^verbatim>\<open>std::tuple\<close> has at least one
  component: \<^verbatim>\<open>decorate_tuple<0>\<close> does not compile for an empty one. C++ fixes
  one element type for each container; the datatype does not, and the theorems hold for
  every value of it.
\<close>

datatype val =
  IntV int
| BoolV bool
| Std_string string
| C_string string
| Container container_template "val list"
| Std_array "val list"
| Std_tuple val "val list"
| Std_pair val val
| Associative assoc_template "(val \<times> val) list"

text \<open>\<^verbatim>\<open>is_string_like_v\<close>, for the element types of \<open>val\<close>.\<close>

fun is_string_like :: "val \<Rightarrow> bool" where
  "is_string_like (Std_string s) = True"
| "is_string_like (C_string s) = True"
| "is_string_like v = False"

text \<open>
  The overloads of \<^verbatim>\<open>decorate_string\<close>: the one for \<^verbatim>\<open>const char*\<close>
  builds a \<^verbatim>\<open>std::string\<close> from the C string. There is no overload for a value
  that is not string-like.
\<close>

fun decorate_string_of :: "'s library \<Rightarrow> 's \<Rightarrow> val \<Rightarrow> string \<Rightarrow> failure + 's" where
  "decorate_string_of lib os (Std_string value) stringDelimiter =
     decorate_string lib os value stringDelimiter"
| "decorate_string_of lib os (C_string value) stringDelimiter =
     decorate_string lib os (c_str value) stringDelimiter"


section \<open>The decorators\<close>

text \<open>
  The decorators are templates: \<^verbatim>\<open>os << value\<close> in their bodies is bound when the
  template is instantiated. The inserter found there is the parameter \<open>out\<close>;
  whether one is found for an element type is settled by the compiler, and the model
  covers the programs that compile. An exception thrown for an element or by the
  library ends the decorator.
\<close>

type_synonym 's inserter = "'s \<Rightarrow> val \<Rightarrow> failure + 's"

text \<open>The range-based loop of \<^verbatim>\<open>decorate\<close> (lines 196 to 207).\<close>

fun decorate_for ::
  "'s library \<Rightarrow> 's inserter \<Rightarrow> 's \<Rightarrow> bool \<Rightarrow> val list \<Rightarrow> string \<Rightarrow> string \<Rightarrow> failure + 's"
  where
  "decorate_for lib out os printValueSeparator [] stringDelimiter valueSeparator = Inr os"
| "decorate_for lib out os printValueSeparator (value # rest) stringDelimiter valueSeparator =
     (case (if printValueSeparator then put_c_str lib os valueSeparator else Inr os) of
        Inl e \<Rightarrow> Inl e
      | Inr os1 \<Rightarrow>
          (case (if is_string_like value
                 then decorate_string_of lib os1 value stringDelimiter
                 else out os1 value) of
             Inl e \<Rightarrow> Inl e
           | Inr os2 \<Rightarrow> decorate_for lib out os2 True rest stringDelimiter valueSeparator))"

definition decorate ::
  "'s library \<Rightarrow> 's inserter \<Rightarrow> 's \<Rightarrow> val list \<Rightarrow> string \<times> string \<Rightarrow> string \<Rightarrow> string
     \<Rightarrow> failure + 's" where
  "decorate lib out os container containerDelimiters stringDelimiter valueSeparator =
     (case put_c_str lib os (fst containerDelimiters) of
        Inl e \<Rightarrow> Inl e
      | Inr os1 \<Rightarrow>
          (case decorate_for lib out os1 False container stringDelimiter valueSeparator of
             Inl e \<Rightarrow> Inl e
           | Inr os2 \<Rightarrow> put_c_str lib os2 (snd containerDelimiters)))"

text \<open>
  The overload of \<^verbatim>\<open>decorate\<close> for \<^verbatim>\<open>std::array\<close>: a loop over the indices
  \<open>i < N\<close> reading \<^verbatim>\<open>container.at(i)\<close>.
\<close>

function decorate_array_for ::
  "'s library \<Rightarrow> 's inserter \<Rightarrow> 's \<Rightarrow> bool \<Rightarrow> nat \<Rightarrow> val list \<Rightarrow> string \<Rightarrow> string
     \<Rightarrow> failure + 's" where
  "decorate_array_for lib out os printValueSeparator i container stringDelimiter
       valueSeparator =
     (if i < length container then
        (case (if printValueSeparator then put_c_str lib os valueSeparator else Inr os) of
           Inl e \<Rightarrow> Inl e
         | Inr os1 \<Rightarrow>
             (let value = container ! i
              in case (if is_string_like value
                       then decorate_string_of lib os1 value stringDelimiter
                       else out os1 value) of
                   Inl e \<Rightarrow> Inl e
                 | Inr os2 \<Rightarrow>
                     decorate_array_for lib out os2 True (Suc i) container stringDelimiter
                       valueSeparator))
      else Inr os)"
  by pat_completeness auto
termination
  by (relation "measure (\<lambda>(lib, out, os, p, i, container, sd, vs). length container - i)")
    auto

declare decorate_array_for.simps [simp del]

definition decorate_array ::
  "'s library \<Rightarrow> 's inserter \<Rightarrow> 's \<Rightarrow> val list \<Rightarrow> string \<times> string \<Rightarrow> string \<Rightarrow> string
     \<Rightarrow> failure + 's" where
  "decorate_array lib out os container containerDelimiters stringDelimiter valueSeparator =
     (case put_c_str lib os (fst containerDelimiters) of
        Inl e \<Rightarrow> Inl e
      | Inr os1 \<Rightarrow>
          (case decorate_array_for lib out os1 False 0 container stringDelimiter
                  valueSeparator of
             Inl e \<Rightarrow> Inl e
           | Inr os2 \<Rightarrow> put_c_str lib os2 (snd containerDelimiters)))"

text \<open>
  \<^verbatim>\<open>decorate_tuple<N>\<close>: the component \<^verbatim>\<open>std::get<N>(container)\<close>, then the
  instance for \<open>N + 1\<close> while \<open>N + 1 < sizeof...(Args)\<close>.
\<close>

function decorate_tuple ::
  "'s library \<Rightarrow> 's inserter \<Rightarrow> nat \<Rightarrow> 's \<Rightarrow> val list \<Rightarrow> string \<Rightarrow> string \<Rightarrow> bool
     \<Rightarrow> failure + 's" where
  "decorate_tuple lib out N os container stringDelimiter valueSeparator printValueSeparator =
     (case (if printValueSeparator then put_c_str lib os valueSeparator else Inr os) of
        Inl e \<Rightarrow> Inl e
      | Inr os1 \<Rightarrow>
          (let value = container ! N
           in case (if is_string_like value
                    then decorate_string_of lib os1 value stringDelimiter
                    else out os1 value) of
                Inl e \<Rightarrow> Inl e
              | Inr os2 \<Rightarrow>
                  if N + 1 < length container
                  then decorate_tuple lib out (N + 1) os2 container stringDelimiter
                         valueSeparator True
                  else Inr os2))"
  by pat_completeness auto
termination
  by (relation "measure (\<lambda>(lib, out, N, os, container, sd, vs, p). length container - N)")
    auto

declare decorate_tuple.simps [simp del]

text \<open>The overload of \<^verbatim>\<open>decorate\<close> for \<^verbatim>\<open>std::tuple\<close>.\<close>

definition decorate_std_tuple ::
  "'s library \<Rightarrow> 's inserter \<Rightarrow> 's \<Rightarrow> val list \<Rightarrow> string \<times> string \<Rightarrow> string \<Rightarrow> string
     \<Rightarrow> failure + 's" where
  "decorate_std_tuple lib out os container containerDelimiters stringDelimiter valueSeparator =
     (case put_c_str lib os (fst containerDelimiters) of
        Inl e \<Rightarrow> Inl e
      | Inr os1 \<Rightarrow>
          (case decorate_tuple lib out 0 os1 container stringDelimiter valueSeparator False of
             Inl e \<Rightarrow> Inl e
           | Inr os2 \<Rightarrow> put_c_str lib os2 (snd containerDelimiters)))"

text \<open>The loop of \<^verbatim>\<open>decorate_assoc\<close> over the entries \<^verbatim>\<open>[key, value]\<close>.\<close>

fun decorate_assoc_for ::
  "'s library \<Rightarrow> 's inserter \<Rightarrow> 's \<Rightarrow> bool \<Rightarrow> (val \<times> val) list \<Rightarrow> string \<Rightarrow> string \<Rightarrow> string
     \<Rightarrow> failure + 's" where
  "decorate_assoc_for lib out os printValueSeparator [] stringDelimiter valueSeparator
       keyValueSeparator = Inr os"
| "decorate_assoc_for lib out os printValueSeparator ((key, value) # rest) stringDelimiter
       valueSeparator keyValueSeparator =
     (case (if printValueSeparator then put_c_str lib os valueSeparator else Inr os) of
        Inl e \<Rightarrow> Inl e
      | Inr os1 \<Rightarrow>
          (case (if is_string_like key then decorate_string_of lib os1 key stringDelimiter
                 else out os1 key) of
             Inl e \<Rightarrow> Inl e
           | Inr os2 \<Rightarrow>
               (case put_c_str lib os2 keyValueSeparator of
                  Inl e \<Rightarrow> Inl e
                | Inr os3 \<Rightarrow>
                    (case (if is_string_like value
                           then decorate_string_of lib os3 value stringDelimiter
                           else out os3 value) of
                       Inl e \<Rightarrow> Inl e
                     | Inr os4 \<Rightarrow>
                         decorate_assoc_for lib out os4 True rest stringDelimiter
                           valueSeparator keyValueSeparator))))"

definition decorate_assoc ::
  "'s library \<Rightarrow> 's inserter \<Rightarrow> 's \<Rightarrow> (val \<times> val) list \<Rightarrow> string \<times> string \<Rightarrow> string
     \<Rightarrow> string \<Rightarrow> string \<Rightarrow> failure + 's" where
  "decorate_assoc lib out os container containerDelimiters stringDelimiter valueSeparator
       keyValueSeparator =
     (case put_c_str lib os (fst containerDelimiters) of
        Inl e \<Rightarrow> Inl e
      | Inr os1 \<Rightarrow>
          (case decorate_assoc_for lib out os1 False container stringDelimiter valueSeparator
                  keyValueSeparator of
             Inl e \<Rightarrow> Inl e
           | Inr os2 \<Rightarrow> put_c_str lib os2 (snd containerDelimiters)))"


section \<open>The inserters\<close>

text \<open>
  The decorators call \<open>out\<close> on elements of the container only; the recursion of
  the inserters through them follows the structure of the value.
\<close>

lemma decorate_for_cong:
  "(\<And>os v. v \<in> set container \<Longrightarrow> out os v = out' os v) \<Longrightarrow>
   decorate_for lib out os p container sd vs = decorate_for lib out' os p container sd vs"
  by (induction container arbitrary: os p) (simp_all cong: sum.case_cong if_cong)

lemma decorate_cong [fundef_cong]:
  "lib = lib' \<Longrightarrow> container = container' \<Longrightarrow> os = os' \<Longrightarrow> cd = cd' \<Longrightarrow> sd = sd' \<Longrightarrow>
   vs = vs' \<Longrightarrow>
   (\<And>os v. v \<in> set container' \<Longrightarrow> out os v = out' os v) \<Longrightarrow>
   decorate lib out os container cd sd vs = decorate lib' out' os' container' cd' sd' vs'"
  using decorate_for_cong [of container' out out' lib'] by (simp add: decorate_def cong: sum.case_cong)

lemma decorate_array_for_cong:
  "(\<And>os v. v \<in> set container \<Longrightarrow> out os v = out' os v) \<Longrightarrow>
   decorate_array_for lib out os p i container sd vs
     = decorate_array_for lib out' os p i container sd vs"
proof (induction "length container - i" arbitrary: os p i)
  case 0
  then show ?case by (simp add: decorate_array_for.simps [of _ _ _ _ i])
next
  case (Suc n)
  then have i: "i < length container" by simp
  have step: "decorate_array_for lib out os' True (Suc i) container sd vs
      = decorate_array_for lib out' os' True (Suc i) container sd vs" for os'
    using Suc.hyps(2) Suc.prems by (intro Suc.hyps(1)) simp_all
  have elem: "out os' (container ! i) = out' os' (container ! i)" for os'
    using Suc.prems i by simp
  show ?case
    by (simp add: decorate_array_for.simps [of _ _ _ _ i] Let_def step elem
        cong: sum.case_cong if_cong)
qed

lemma decorate_array_cong [fundef_cong]:
  "lib = lib' \<Longrightarrow> container = container' \<Longrightarrow> os = os' \<Longrightarrow> cd = cd' \<Longrightarrow> sd = sd' \<Longrightarrow>
   vs = vs' \<Longrightarrow>
   (\<And>os v. v \<in> set container' \<Longrightarrow> out os v = out' os v) \<Longrightarrow>
   decorate_array lib out os container cd sd vs
     = decorate_array lib' out' os' container' cd' sd' vs'"
  using decorate_array_for_cong [of container' out out' lib']
  by (simp add: decorate_array_def cong: sum.case_cong)

lemma decorate_tuple_cong:
  "(\<And>os v. v \<in> set container \<Longrightarrow> out os v = out' os v) \<Longrightarrow> N < length container \<Longrightarrow>
   decorate_tuple lib out N os container sd vs p
     = decorate_tuple lib out' N os container sd vs p"
proof (induction "length container - N" arbitrary: os p N)
  case 0
  then show ?case by simp
next
  case (Suc n)
  have elem: "out os' (container ! N) = out' os' (container ! N)" for os'
    using Suc.prems by simp
  have step: "decorate_tuple lib out (N + 1) os' container sd vs True
      = decorate_tuple lib out' (N + 1) os' container sd vs True"
    if "Suc N < length container" for os'
    using Suc.hyps(2) Suc.prems(1) that by (intro Suc.hyps(1)) simp_all
  show ?case
    by (simp add: decorate_tuple.simps [of _ _ N] Let_def step elem
        del: One_nat_def add_Suc_right cong: sum.case_cong if_cong)
qed

lemma decorate_std_tuple_cong [fundef_cong]:
  "lib = lib' \<Longrightarrow> container = container' \<Longrightarrow> os = os' \<Longrightarrow> cd = cd' \<Longrightarrow> sd = sd' \<Longrightarrow>
   vs = vs' \<Longrightarrow>
   (\<And>os v. (container' \<noteq> [] \<longrightarrow> v \<in> set container') \<Longrightarrow> out os v = out' os v) \<Longrightarrow>
   decorate_std_tuple lib out os container cd sd vs
     = decorate_std_tuple lib' out' os' container' cd' sd' vs'"
proof (cases "container' = []")
  case True
  assume "\<And>os v. (container' \<noteq> [] \<longrightarrow> v \<in> set container') \<Longrightarrow> out os v = out' os v"
  with True have "out = out'" by (intro ext) simp
  moreover assume "lib = lib'" "container = container'" "os = os'" "cd = cd'" "sd = sd'"
    "vs = vs'"
  ultimately show ?thesis by simp
next
  case False
  assume "\<And>os v. (container' \<noteq> [] \<longrightarrow> v \<in> set container') \<Longrightarrow> out os v = out' os v"
  with False have "decorate_tuple lib' out 0 os'' container' sd' vs' False
      = decorate_tuple lib' out' 0 os'' container' sd' vs' False" for os''
    by (intro decorate_tuple_cong) simp_all
  moreover assume "lib = lib'" "container = container'" "os = os'" "cd = cd'" "sd = sd'"
    "vs = vs'"
  ultimately show ?thesis by (simp add: decorate_std_tuple_def cong: sum.case_cong)
qed

lemma decorate_assoc_for_cong:
  "(\<And>os k v. (k, v) \<in> set container \<Longrightarrow> out os k = out' os k) \<Longrightarrow>
   (\<And>os k v. (k, v) \<in> set container \<Longrightarrow> out os v = out' os v) \<Longrightarrow>
   decorate_assoc_for lib out os p container sd vs kvs
     = decorate_assoc_for lib out' os p container sd vs kvs"
proof (induction container arbitrary: os p)
  case Nil
  then show ?case by simp
next
  case (Cons e container)
  obtain k v where e: "e = (k, v)" by (cases e)
  have k: "out os' k = out' os' k" and v: "out os' v = out' os' v" for os'
    using Cons.prems(1) [of k v] Cons.prems(2) [of k v] e by simp_all
  have "decorate_assoc_for lib out os' p' container sd vs kvs
      = decorate_assoc_for lib out' os' p' container sd vs kvs" for os' p'
  proof (rule Cons.IH)
    show "out os k = out' os k" if "(k, v) \<in> set container" for os k v
      using Cons.prems(1) [of k v] that by simp
    show "out os v = out' os v" if "(k, v) \<in> set container" for os k v
      using Cons.prems(2) [of k v] that by simp
  qed
  then show ?case by (simp add: e k v cong: sum.case_cong if_cong)
qed

lemma decorate_assoc_cong [fundef_cong]:
  "lib = lib' \<Longrightarrow> container = container' \<Longrightarrow> os = os' \<Longrightarrow> cd = cd' \<Longrightarrow> sd = sd' \<Longrightarrow>
   vs = vs' \<Longrightarrow> kvs = kvs' \<Longrightarrow>
   (\<And>os k v. (k, v) \<in> set container' \<Longrightarrow> out os k = out' os k) \<Longrightarrow>
   (\<And>os k v. (k, v) \<in> set container' \<Longrightarrow> out os v = out' os v) \<Longrightarrow>
   decorate_assoc lib out os container cd sd vs kvs
     = decorate_assoc lib' out' os' container' cd' sd' vs' kvs'"
  using decorate_assoc_for_cong [of container' out out' lib']
  by (simp add: decorate_assoc_def cong: sum.case_cong)

text \<open>A measure for the recursion of the inserters: a pair weighs more than its tuple.\<close>

fun weight :: "val \<Rightarrow> nat" where
  "weight (IntV i) = 1"
| "weight (BoolV b) = 1"
| "weight (Std_string s) = 1"
| "weight (C_string s) = 1"
| "weight (Container T container) = Suc (sum_list (map weight container))"
| "weight (Std_array container) = Suc (sum_list (map weight container))"
| "weight (Std_tuple v vs) = Suc (weight v + sum_list (map weight vs))"
| "weight (Std_pair first second) = Suc (Suc (weight first + weight second))"
| "weight (Associative T container) =
     Suc (sum_list (map (\<lambda>(k, v). weight k + weight v) container))"

lemma weight_member: "v \<in> set container \<Longrightarrow> weight v \<le> sum_list (map weight container)"
  by (induction container) auto

lemma weight_entry:
  "(k, v) \<in> set container \<Longrightarrow>
   weight k + weight v \<le> sum_list (map (\<lambda>(k, v). weight k + weight v) container)"
  by (induction container) auto

text \<open>
  The overloads of \<^verbatim>\<open>operator<<\<close>: those of the standard library for the
  scalars, and the header's (lines 323 to 373), each with its literal delimiters. The
  inserter for \<^verbatim>\<open>std::pair\<close> builds a \<^verbatim>\<open>std::tuple\<close> and writes that.
\<close>


text \<open>
  The overloads of \<^verbatim>\<open>operator<<\<close>: those of the standard library for the
  scalars, and the header's (lines 323 to 373), each with its literal delimiters. The
  inserter for \<^verbatim>\<open>std::pair\<close> builds a \<^verbatim>\<open>std::tuple\<close> and writes that.
\<close>

function operator_out :: "'s library \<Rightarrow> 's \<Rightarrow> val \<Rightarrow> failure + 's" where
  "operator_out lib os (IntV i) = out_int lib os i"
| "operator_out lib os (BoolV b) = out_bool lib os b"
| "operator_out lib os (Std_string s) = out_string lib os s"
| "operator_out lib os (C_string s) = put_c_str lib os s"
| "operator_out lib os (Container T container) =
     decorate lib (\<lambda>os v. operator_out lib os v) os container (''['', '']'') [apostrophe]
       '', ''"
| "operator_out lib os (Std_array container) =
     decorate_array lib (\<lambda>os v. operator_out lib os v) os container (''['', '']'')
       [apostrophe] '', ''"
| "operator_out lib os (Std_tuple v vs) =
     decorate_std_tuple lib (\<lambda>os v. operator_out lib os v) os (v # vs) (''('', '')'')
       [apostrophe] '', ''"
| "operator_out lib os (Std_pair first second) =
     operator_out lib os (Std_tuple first [second])"
| "operator_out lib os (Associative T container) =
     decorate_assoc lib (\<lambda>os v. operator_out lib os v) os container (''{'', ''}'')
       [apostrophe] '', '' '': ''"
  by pat_completeness auto
termination
proof (relation "measure (\<lambda>(lib, os, v). weight v)", goal_cases)
  case 1
  show ?case by simp
next
  case (2 lib os T container os' v)
  then show ?case using weight_member [of v container] by simp
next
  case (3 lib os container os' v)
  then show ?case using weight_member [of v container] by simp
next
  case (4 lib os v vs os' x)
  then show ?case using weight_member [of x vs] by auto
next
  case (5 lib os first second)
  show ?case by simp
next
  case (6 lib os T container os' k v)
  then show ?case using weight_entry [of k v container] by simp
next
  case (7 lib os T container os' k v)
  then show ?case using weight_entry [of k v container] by simp
qed


section \<open>A stream in its initial formatting state\<close>

text \<open>
  The library's inserters on a stream that is in the formatting state of a newly
  constructed stream (decimal integers, no field width, the classic locale, no error,
  no exception asked for), but for the \<^verbatim>\<open>boolalpha\<close> flag, which the header's
  comment mentions ("Remember to os << std::boolalpha; if you want bools to use
  words"). The state of such a stream is the characters written so far and the flag;
  writing appends characters and leaves the flag as it is.
\<close>

record ostream =
  buf :: string
  boolalpha :: bool

definition emit :: "ostream \<Rightarrow> string \<Rightarrow> ostream" where
  "emit os s = os\<lparr>buf := buf os @ s\<rparr>"

fun digits :: "nat \<Rightarrow> string" where
  "digits n =
     (if n < 10 then [''0123456789'' ! n]
      else digits (n div 10) @ [''0123456789'' ! (n mod 10)])"

declare digits.simps [simp del]

text \<open>An \<^verbatim>\<open>int\<close> in decimal notation.\<close>

definition int_text :: "int \<Rightarrow> string" where
  "int_text i = (if i < 0 then CHR ''-'' # digits (nat (- i)) else digits (nat i))"

text \<open>A \<^verbatim>\<open>bool\<close>: a word under \<^verbatim>\<open>boolalpha\<close>, else 1 or 0.\<close>

definition bool_text :: "bool \<Rightarrow> bool \<Rightarrow> string" where
  "bool_text alpha b =
     (if alpha then (if b then ''true'' else ''false'') else (if b then ''1'' else ''0''))"

definition plain_stream :: "ostream library" where
  "plain_stream =
     \<lparr>out_c_str = (\<lambda>os s. Inr (emit os s)),
      out_string = (\<lambda>os s. Inr (emit os s)),
      out_int = (\<lambda>os i. Inr (emit os (int_text i))),
      out_bool = (\<lambda>os b. Inr (emit os (bool_text (boolalpha os) b)))\<rparr>"

lemma plain_stream_simps [simp]:
  "out_c_str plain_stream os s = Inr (emit os s)"
  "out_string plain_stream os s = Inr (emit os s)"
  "out_int plain_stream os i = Inr (emit os (int_text i))"
  "out_bool plain_stream os b = Inr (emit os (bool_text (boolalpha os) b))"
  "put_c_str plain_stream os s = Inr (emit os (c_str s))"
  by (simp_all add: plain_stream_def put_c_str_def)


section \<open>What the inserters write\<close>

subsection \<open>Writing to a stream\<close>

lemma buf_emit [simp]: "buf (emit os s) = buf os @ s"
  by (simp add: emit_def)

lemma boolalpha_emit [simp]: "boolalpha (emit os s) = boolalpha os"
  by (simp add: emit_def)

lemma emit_emit [simp]: "emit (emit os a) b = emit os (a @ b)"
  by (simp add: emit_def)

lemma emit_Nil [simp]: "emit os [] = os"
  by (simp add: emit_def)

lemma emit_eq_iff [simp]: "emit os a = emit os b \<longleftrightarrow> a = b"
proof
  assume "emit os a = emit os b"
  then have "buf (emit os a) = buf (emit os b)" by simp
  then show "a = b" by simp
qed simp

subsection \<open>The regular expressions of the string decorator\<close>

text \<open>
  For a delimiter without a backslash the pattern built by \<^verbatim>\<open>regex_escape\<close> is well
  formed and matches the delimiter itself. A backslash is left as it is, and as the
  whole delimiter it makes a pattern that the constructor rejects.
\<close>

lemma specialChars_not_identifier: "specialChars c \<Longrightarrow> \<not> identifier_char c"
  by (auto simp: specialChars_def identifier_char_def)

lemma not_specialChars_ordinary:
  "\<not> specialChars c \<Longrightarrow> c \<noteq> backslash \<Longrightarrow> \<not> syntax_char c"
  by (auto simp: specialChars_def syntax_char_def)

lemma basic_regex_regex_escape:
  "backslash \<notin> set s \<Longrightarrow> basic_regex (regex_escape s) = Inr s"
  by (induction s) (auto simp: specialChars_not_identifier not_specialChars_ordinary)

lemma basic_regex_escapeRe: "basic_regex [backslash, backslash] = Inr [backslash]"
  by (simp add: identifier_char_def)

lemma basic_regex_backslash: "basic_regex (regex_escape [backslash]) = Inl Regex_error"
  by (simp add: specialChars_def)

lemma escaped_value_eq:
  "backslash \<notin> set sd \<Longrightarrow>
   escaped_value value sd = Inr (regex_replace (regex_replace value [backslash]) sd)"
  by (simp add: escaped_value_def basic_regex_regex_escape basic_regex_escapeRe
      del: basic_regex.simps)

lemma escaped_value_backslash: "escaped_value value [backslash] = Inl Regex_error"
  by (simp add: escaped_value_def basic_regex_backslash del: basic_regex.simps regex_escape.simps)

text \<open>
  The contract of the string escaper in the specification's words: replace every
  backslash by two, then every occurrence of the delimiter character by a backslash
  and the delimiter; every other character stays.
\<close>

definition escape_char :: "char \<Rightarrow> string \<Rightarrow> string" where
  "escape_char c text = concat (map (\<lambda>x. if x = c then [backslash, x] else [x]) text)"

definition escape_spec :: "char \<Rightarrow> string \<Rightarrow> string" where
  "escape_spec d text = escape_char d (escape_char backslash text)"

lemma regex_replace_char: "regex_replace value [d] = escape_char d value"
  by (induction "value") (simp_all add: escape_char_def)

lemma escaped_value_char:
  "d \<noteq> backslash \<Longrightarrow> escaped_value value [d] = Inr (escape_spec d value)"
  by (simp add: escaped_value_eq regex_replace_char escape_spec_def)

lemma decorate_string_char:
  "d \<noteq> backslash \<Longrightarrow>
   decorate_string plain_stream os value [d] = Inr (emit os (c_str [d] @ c_str (escape_spec d value) @ c_str [d]))"
  by (simp add: decorate_string_def escaped_value_char)

lemma decorate_string_emit:
  "backslash \<notin> set sd \<Longrightarrow>
   decorate_string plain_stream os value sd
     = Inr (emit os (c_str sd @ c_str (regex_replace (regex_replace value [backslash]) sd)
                      @ c_str sd))"
  by (simp add: decorate_string_def escaped_value_eq)


subsection \<open>The text of a value\<close>

text \<open>
  \<open>format\<close> is the text an inserter writes to a fresh stream with the given
  \<^verbatim>\<open>boolalpha\<close> flag; \<open>element_text\<close> is the text the body of a decorator's
  loop writes for one element (lines 202 to 206); \<open>join\<close> puts a separator between
  texts. A call that throws writes no text here.
\<close>

definition empty_stream :: "bool \<Rightarrow> ostream" where
  "empty_stream alpha = \<lparr>buf = [], boolalpha = alpha\<rparr>"

definition text_of :: "failure + ostream \<Rightarrow> string" where
  "text_of r = (case r of Inl e \<Rightarrow> [] | Inr os \<Rightarrow> buf os)"

definition format :: "bool \<Rightarrow> val \<Rightarrow> string" where
  "format alpha v = text_of (operator_out plain_stream (empty_stream alpha) v)"

definition element_text :: "bool \<Rightarrow> string \<Rightarrow> val \<Rightarrow> string" where
  "element_text alpha stringDelimiter value =
     text_of (if is_string_like value
              then decorate_string_of plain_stream (empty_stream alpha) value stringDelimiter
              else operator_out plain_stream (empty_stream alpha) value)"

fun join :: "string \<Rightarrow> string list \<Rightarrow> string" where
  "join sep [] = []"
| "join sep [x] = x"
| "join sep (x # y # ys) = x @ sep @ join sep (y # ys)"

lemma join_Cons: "join sep (x # xs) = x @ (if xs = [] then [] else sep @ join sep xs)"
  by (cases xs) simp_all

lemma empty_stream_simps [simp]:
  "buf (empty_stream alpha) = []" "boolalpha (empty_stream alpha) = alpha"
  by (simp_all add: empty_stream_def)

lemma text_of_Inr [simp]: "text_of (Inr os) = buf os"
  by (simp add: text_of_def)

text \<open>
  A step that never throws and only appends, the text depending on the flag alone.
\<close>

definition appends :: "(ostream \<Rightarrow> failure + ostream) \<Rightarrow> bool" where
  "appends f \<longleftrightarrow> (\<forall>os. f os = Inr (emit os (text_of (f (empty_stream (boolalpha os))))))"

lemma appendsI:
  assumes "\<And>os :: ostream. f os = Inr (emit os (T (boolalpha os)))"
  shows "appends f"
  unfolding appends_def
proof
  fix os :: ostream
  have "text_of (f (empty_stream (boolalpha os))) = T (boolalpha os)"
    using assms [of "empty_stream (boolalpha os)"] by simp
  then show "f os = Inr (emit os (text_of (f (empty_stream (boolalpha os)))))"
    using assms [of os] by simp
qed

lemma appendsD: "appends f \<Longrightarrow> f os = Inr (emit os (text_of (f (empty_stream (boolalpha os)))))"
  unfolding appends_def by blast

text \<open>The body of a decorator's loop for one element.\<close>

definition element_step :: "ostream inserter \<Rightarrow> val \<Rightarrow> string \<Rightarrow> ostream \<Rightarrow> failure + ostream" where
  "element_step out v sd os =
     (if is_string_like v then decorate_string_of plain_stream os v sd else out os v)"

definition element_of :: "ostream inserter \<Rightarrow> bool \<Rightarrow> string \<Rightarrow> val \<Rightarrow> string" where
  "element_of out alpha sd v = text_of (element_step out v sd (empty_stream alpha))"

lemma element_emit:
  assumes "appends (element_step out v sd)"
  shows "(if is_string_like v then decorate_string_of plain_stream os v sd else out os v)
       = Inr (emit os (element_of out (boolalpha os) sd v))"
  using appendsD [OF assms, of os] by (simp add: element_step_def element_of_def)

lemma appends_decorate_string_of:
  assumes "backslash \<notin> set sd" and "is_string_like v"
  shows "appends (\<lambda>os. decorate_string_of plain_stream os v sd)"
proof (cases v)
  case (Std_string s)
  show ?thesis
    unfolding Std_string
    by (rule appendsI [where T = "\<lambda>a. c_str sd
          @ c_str (regex_replace (regex_replace s [backslash]) sd) @ c_str sd"])
      (simp add: decorate_string_emit assms)
next
  case (C_string s)
  show ?thesis
    unfolding C_string
    by (rule appendsI [where T = "\<lambda>a. c_str sd
          @ c_str (regex_replace (regex_replace (c_str s) [backslash]) sd) @ c_str sd"])
      (simp add: decorate_string_emit assms)
qed (use assms in simp_all)

lemma appends_element_step:
  assumes "backslash \<notin> set sd" and "\<not> is_string_like v \<Longrightarrow> appends (\<lambda>os. out os v)"
  shows "appends (element_step out v sd)"
proof (cases "is_string_like v")
  case True
  then have "element_step out v sd = (\<lambda>os. decorate_string_of plain_stream os v sd)"
    by (intro ext) (simp add: element_step_def)
  with True assms(1) show ?thesis by (simp add: appends_decorate_string_of)
next
  case False
  then have "element_step out v sd = (\<lambda>os. out os v)"
    by (intro ext) (simp add: element_step_def)
  with False assms(2) show ?thesis by simp
qed

lemma decorate_for_emit:
  assumes "\<And>v. v \<in> set container \<Longrightarrow> appends (element_step out v sd)"
  shows "decorate_for plain_stream out os p container sd vs
       = Inr (emit os ((if p \<and> container \<noteq> [] then c_str vs else [])
                  @ join (c_str vs) (map (element_of out (boolalpha os) sd) container)))"
  using assms
proof (induction container arbitrary: os p)
  case Nil
  show ?case by simp
next
  case (Cons v rest)
  have elem: "(if is_string_like v then decorate_string_of plain_stream os' v sd else out os' v)
       = Inr (emit os' (element_of out (boolalpha os') sd v))" for os'
    using Cons.prems by (intro element_emit) simp
  have rest: "decorate_for plain_stream out os' True rest sd vs
       = Inr (emit os' ((if rest \<noteq> [] then c_str vs else [])
                  @ join (c_str vs) (map (element_of out (boolalpha os') sd) rest)))" for os'
    using Cons.IH [of os' True] Cons.prems by simp
  show ?case
    by (simp add: Let_def elem rest join_Cons)
qed

lemma decorate_emit:
  assumes "\<And>v. v \<in> set container \<Longrightarrow> appends (element_step out v sd)"
  shows "decorate plain_stream out os container cd sd vs
       = Inr (emit os (c_str (fst cd)
                  @ join (c_str vs) (map (element_of out (boolalpha os) sd) container)
                  @ c_str (snd cd)))"
  using decorate_for_emit [OF assms, where os = "emit os (c_str (fst cd))" and p = False]
  by (simp add: decorate_def Let_def)

lemma decorate_array_for_drop:
  "decorate_array_for lib out os p i container sd vs = decorate_for lib out os p (drop i container) sd vs"
proof (induction "length container - i" arbitrary: os p i)
  case 0
  then show ?case by (simp add: decorate_array_for.simps [of _ _ _ _ i])
next
  case (Suc n)
  then have i: "i < length container" by simp
  have step: "decorate_array_for lib out os' True (Suc i) container sd vs
      = decorate_for lib out os' True (drop (Suc i) container) sd vs" for os'
    using Suc.hyps(2) by (intro Suc.hyps(1)) simp
  have "drop i container = container ! i # drop (Suc i) container"
    using i by (simp add: Cons_nth_drop_Suc)
  then show ?case
    using i by (simp add: decorate_array_for.simps [of _ _ _ _ i] Let_def step cong: sum.case_cong)
qed

lemma decorate_array_eq:
  "decorate_array lib out os container cd sd vs = decorate lib out os container cd sd vs"
  by (simp add: decorate_array_def decorate_def decorate_array_for_drop cong: sum.case_cong)

lemma decorate_tuple_drop:
  "N < length container \<Longrightarrow>
   decorate_tuple lib out N os container sd vs p = decorate_for lib out os p (drop N container) sd vs"
proof (induction "length container - N" arbitrary: os p N)
  case 0
  then show ?case by simp
next
  case (Suc n)
  have step: "decorate_tuple lib out (N + 1) os' container sd vs True
      = decorate_for lib out os' True (drop (Suc N) container) sd vs"
    if "Suc N < length container" for os'
    using Suc.hyps(2) that Suc.hyps(1) [of "N + 1" os' True] by simp
  have d: "drop N container = container ! N # drop (Suc N) container"
    using Suc.prems by (simp add: Cons_nth_drop_Suc)
  show ?case
  proof (cases "Suc N < length container")
    case True
    then show ?thesis
      by (simp add: decorate_tuple.simps [of _ _ N] Let_def step d del: One_nat_def add_Suc_right
          cong: sum.case_cong)
  next
    case False
    then have "drop (Suc N) container = []" by simp
    with False show ?thesis
      by (simp add: decorate_tuple.simps [of _ _ N] Let_def d cong: sum.case_cong)
  qed
qed

lemma decorate_std_tuple_eq:
  "container \<noteq> [] \<Longrightarrow>
   decorate_std_tuple lib out os container cd sd vs = decorate lib out os container cd sd vs"
  by (simp add: decorate_std_tuple_def decorate_def decorate_tuple_drop cong: sum.case_cong)

definition entry_of :: "ostream inserter \<Rightarrow> bool \<Rightarrow> string \<Rightarrow> string \<Rightarrow> val \<times> val \<Rightarrow> string" where
  "entry_of out alpha sd kvs e =
     element_of out alpha sd (fst e) @ c_str kvs @ element_of out alpha sd (snd e)"

lemma decorate_assoc_for_emit:
  assumes "\<And>k v. (k, v) \<in> set container \<Longrightarrow> appends (element_step out k sd)"
      and "\<And>k v. (k, v) \<in> set container \<Longrightarrow> appends (element_step out v sd)"
  shows "decorate_assoc_for plain_stream out os p container sd vs kvs
       = Inr (emit os ((if p \<and> container \<noteq> [] then c_str vs else [])
                  @ join (c_str vs) (map (entry_of out (boolalpha os) sd kvs) container)))"
  using assms
proof (induction container arbitrary: os p)
  case Nil
  show ?case by simp
next
  case (Cons e rest)
  obtain k v where e: "e = (k, v)" by (cases e)
  have key: "(if is_string_like k then decorate_string_of plain_stream os' k sd else out os' k)
       = Inr (emit os' (element_of out (boolalpha os') sd k))" for os'
    using Cons.prems(1) [of k v] e by (intro element_emit) simp
  have val: "(if is_string_like v then decorate_string_of plain_stream os' v sd else out os' v)
       = Inr (emit os' (element_of out (boolalpha os') sd v))" for os'
    using Cons.prems(2) [of k v] e by (intro element_emit) simp
  have rest: "decorate_assoc_for plain_stream out os' True rest sd vs kvs
       = Inr (emit os' ((if rest \<noteq> [] then c_str vs else [])
                  @ join (c_str vs) (map (entry_of out (boolalpha os') sd kvs) rest)))" for os'
  proof -
    have "decorate_assoc_for plain_stream out os' True rest sd vs kvs
       = Inr (emit os' ((if True \<and> rest \<noteq> [] then c_str vs else [])
                  @ join (c_str vs) (map (entry_of out (boolalpha os') sd kvs) rest)))"
    proof (rule Cons.IH)
      show "appends (element_step out k sd)" if "(k, v) \<in> set rest" for k v
        using Cons.prems(1) [of k v] that by simp
      show "appends (element_step out v sd)" if "(k, v) \<in> set rest" for k v
        using Cons.prems(2) [of k v] that by simp
    qed
    then show ?thesis by simp
  qed
  have ent: "entry_of out a sd kvs (k, v)
      = element_of out a sd k @ c_str kvs @ element_of out a sd v" for a
    by (simp add: entry_of_def)
  show ?case
    by (simp add: e Let_def key val rest ent join_Cons)
qed

lemma decorate_assoc_emit:
  assumes "\<And>k v. (k, v) \<in> set container \<Longrightarrow> appends (element_step out k sd)"
      and "\<And>k v. (k, v) \<in> set container \<Longrightarrow> appends (element_step out v sd)"
  shows "decorate_assoc plain_stream out os container cd sd vs kvs
       = Inr (emit os (c_str (fst cd)
                  @ join (c_str vs) (map (entry_of out (boolalpha os) sd kvs) container)
                  @ c_str (snd cd)))"
  using decorate_assoc_for_emit [OF assms, where os = "emit os (c_str (fst cd))" and p = False]
  by (simp add: decorate_assoc_def Let_def)

lemma c_str_literals [simp]:
  "c_str ''['' = ''[''" "c_str '']'' = '']''" "c_str ''('' = ''(''" "c_str '')'' = '')''"
  "c_str ''{'' = ''{''" "c_str ''}'' = ''}''" "c_str '', '' = '', ''" "c_str '': '' = '': ''"
  "c_str [apostrophe] = [apostrophe]"
  by (simp_all add: c_str_def)

lemma appends_operator_out: "appends (\<lambda>os. operator_out plain_stream os v)"
proof (induction v rule: weight.induct)
  case (1 i)
  show ?case by (rule appendsI [where T = "\<lambda>a. int_text i"]) simp
next
  case (2 b)
  show ?case by (rule appendsI [where T = "\<lambda>a. bool_text a b"]) simp
next
  case (3 s)
  show ?case by (rule appendsI [where T = "\<lambda>a. s"]) simp
next
  case (4 s)
  show ?case by (rule appendsI [where T = "\<lambda>a. c_str s"]) simp
next
  case (5 T container)
  have "appends (element_step (operator_out plain_stream) x [apostrophe])" if "x \<in> set container" for x
    by (rule appends_element_step) (use 5 that in simp_all)
  then have "decorate plain_stream (operator_out plain_stream) os container cd [apostrophe] sep
      = Inr (emit os (c_str (fst cd)
           @ join (c_str sep) (map (element_of (operator_out plain_stream) (boolalpha os) [apostrophe]) container)
           @ c_str (snd cd)))" for os cd sep
    by (rule decorate_emit)
  then show ?case
    by (intro appendsI [where T = "\<lambda>a. ''['' @ join '', ''
          (map (element_of (operator_out plain_stream) a [apostrophe]) container) @ '']''"]) simp
next
  case (6 container)
  have "appends (element_step (operator_out plain_stream) x [apostrophe])" if "x \<in> set container" for x
    by (rule appends_element_step) (use 6 that in simp_all)
  then have "decorate plain_stream (operator_out plain_stream) os container cd [apostrophe] sep
      = Inr (emit os (c_str (fst cd)
           @ join (c_str sep) (map (element_of (operator_out plain_stream) (boolalpha os) [apostrophe]) container)
           @ c_str (snd cd)))" for os cd sep
    by (rule decorate_emit)
  then show ?case
    by (intro appendsI [where T = "\<lambda>a. ''['' @ join '', ''
          (map (element_of (operator_out plain_stream) a [apostrophe]) container) @ '']''"])
      (simp add: decorate_array_eq)
next
  case (7 v vs)
  have "appends (element_step (operator_out plain_stream) x [apostrophe])" if "x \<in> set (v # vs)" for x
    by (rule appends_element_step) (use 7 that in auto)
  then have "decorate plain_stream (operator_out plain_stream) os (v # vs) cd [apostrophe] sep
      = Inr (emit os (c_str (fst cd)
           @ join (c_str sep) (map (element_of (operator_out plain_stream) (boolalpha os) [apostrophe]) (v # vs))
           @ c_str (snd cd)))" for os cd sep
    by (rule decorate_emit)
  then show ?case
    by (intro appendsI [where T = "\<lambda>a. ''('' @ join '', ''
          (map (element_of (operator_out plain_stream) a [apostrophe]) (v # vs)) @ '')''"])
      (simp add: decorate_std_tuple_eq)
next
  case (8 first second)
  have "appends (element_step (operator_out plain_stream) x [apostrophe])" if "x \<in> set [first, second]" for x
    by (rule appends_element_step) (use 8 that in auto)
  then have "decorate plain_stream (operator_out plain_stream) os [first, second] cd [apostrophe] sep
      = Inr (emit os (c_str (fst cd)
           @ join (c_str sep)
               (map (element_of (operator_out plain_stream) (boolalpha os) [apostrophe]) [first, second])
           @ c_str (snd cd)))" for os cd sep
    by (rule decorate_emit)
  then show ?case
    by (intro appendsI [where T = "\<lambda>a. ''('' @ join '', ''
          (map (element_of (operator_out plain_stream) a [apostrophe]) [first, second]) @ '')''"])
      (simp add: decorate_std_tuple_eq)
next
  case (9 T container)
  have k: "appends (element_step (operator_out plain_stream) k [apostrophe])" if "(k, v) \<in> set container" for k v
    by (rule appends_element_step) (use 9(1) [of "(k, v)" k v] that in simp_all)
  have v: "appends (element_step (operator_out plain_stream) v [apostrophe])" if "(k, v) \<in> set container" for k v
    by (rule appends_element_step) (use 9(2) [of "(k, v)" k v] that in simp_all)
  have "decorate_assoc plain_stream (operator_out plain_stream) os container cd [apostrophe] sep kvs
      = Inr (emit os (c_str (fst cd)
           @ join (c_str sep) (map (entry_of (operator_out plain_stream) (boolalpha os) [apostrophe] kvs) container)
           @ c_str (snd cd)))" for os cd sep kvs
    by (rule decorate_assoc_emit) (use k v in blast)+
  then show ?case
    by (intro appendsI [where T = "\<lambda>a. ''{'' @ join '', ''
          (map (entry_of (operator_out plain_stream) a [apostrophe] '': '') container) @ ''}''"]) simp
qed


lemma element_of_operator_out: "element_of (operator_out plain_stream) = element_text"
  by (intro ext) (simp add: element_of_def element_text_def element_step_def)

lemma appends_element_operator_out:
  "backslash \<notin> set sd \<Longrightarrow> appends (element_step (operator_out plain_stream) v sd)"
  by (rule appends_element_step) (simp_all add: appends_operator_out)

lemma decorate_operator_out:
  "backslash \<notin> set sd \<Longrightarrow>
   decorate plain_stream (operator_out plain_stream) os container cd sd vs
     = Inr (emit os (c_str (fst cd)
                @ join (c_str vs) (map (element_text (boolalpha os) sd) container)
                @ c_str (snd cd)))"
  using decorate_emit [of container "operator_out plain_stream" sd os cd vs]
  by (simp add: appends_element_operator_out element_of_operator_out)

lemma decorate_assoc_operator_out:
  "backslash \<notin> set sd \<Longrightarrow>
   decorate_assoc plain_stream (operator_out plain_stream) os container cd sd vs kvs
     = Inr (emit os (c_str (fst cd)
                @ join (c_str vs) (map (entry_of (operator_out plain_stream) (boolalpha os) sd kvs) container)
                @ c_str (snd cd)))"
  using decorate_assoc_emit [of container "operator_out plain_stream" sd os cd vs kvs]
  by (simp add: appends_element_operator_out)

lemma element_text_other:
  "\<not> is_string_like v \<Longrightarrow> element_text alpha sd v = format alpha v"
  by (simp add: element_text_def format_def)

lemma element_text_Std_string:
  "d \<noteq> backslash \<Longrightarrow>
   element_text alpha [d] (Std_string s) = c_str [d] @ c_str (escape_spec d s) @ c_str [d]"
  by (simp add: element_text_def decorate_string_char)

lemma element_text_C_string:
  "d \<noteq> backslash \<Longrightarrow>
   element_text alpha [d] (C_string s)
     = c_str [d] @ c_str (escape_spec d (c_str s)) @ c_str [d]"
  by (simp add: element_text_def decorate_string_char)

lemma format_IntV: "format alpha (IntV i) = int_text i"
  by (simp add: format_def)

lemma format_BoolV: "format alpha (BoolV b) = bool_text alpha b"
  by (simp add: format_def)

lemma format_Container:
  "format alpha (Container T container)
     = ''['' @ join '', '' (map (element_text alpha [apostrophe]) container) @ '']''"
  by (simp add: format_def decorate_operator_out)

lemma format_Std_array:
  "format alpha (Std_array container)
     = ''['' @ join '', '' (map (element_text alpha [apostrophe]) container) @ '']''"
  by (simp add: format_def decorate_array_eq decorate_operator_out)

lemma format_Std_tuple:
  "format alpha (Std_tuple v vs)
     = ''('' @ join '', '' (map (element_text alpha [apostrophe]) (v # vs)) @ '')''"
  by (simp add: format_def decorate_std_tuple_eq decorate_operator_out del: list.map)

lemma format_Std_pair:
  "format alpha (Std_pair first second) = format alpha (Std_tuple first [second])"
  by (simp add: format_def)

lemma format_Associative:
  "format alpha (Associative T container)
     = ''{'' @ join '', ''
         (map (\<lambda>(key, value). element_text alpha [apostrophe] key @ '': ''
                 @ element_text alpha [apostrophe] value) container) @ ''}''"
proof -
  have "entry_of (operator_out plain_stream) alpha [apostrophe] '': ''
      = (\<lambda>(key, value). element_text alpha [apostrophe] key @ '': ''
                 @ element_text alpha [apostrophe] value)"
    by (intro ext) (simp add: entry_of_def element_of_operator_out split: prod.split)
  then show ?thesis
    by (simp add: format_def decorate_assoc_operator_out)
qed


section \<open>The insertions of a run\<close>

text \<open>
  One call of an inserter of the library, and a sequence of such calls run on a
  stream: the run stops at the first call that throws.
\<close>

datatype insertion = Out_c_str string | Out_string string | Out_int int | Out_bool bool

definition perform :: "'s library \<Rightarrow> 's \<Rightarrow> insertion \<Rightarrow> failure + 's" where
  "perform lib os x =
     (case x of
        Out_c_str s \<Rightarrow> out_c_str lib os s
      | Out_string s \<Rightarrow> out_string lib os s
      | Out_int i \<Rightarrow> out_int lib os i
      | Out_bool b \<Rightarrow> out_bool lib os b)"

fun run :: "'s library \<Rightarrow> 's \<Rightarrow> insertion list \<Rightarrow> failure + 's" where
  "run lib os [] = Inr os"
| "run lib os (x # xs) =
     (case perform lib os x of Inl e \<Rightarrow> Inl e | Inr os' \<Rightarrow> run lib os' xs)"

text \<open>
  A stream that keeps nothing but the list of the insertions made on it. The script
  of a value is what the header's inserter does to such a stream; it is a function of
  the value, and the script of a decorator a function of the container and the
  delimiters.
\<close>

definition recorder :: "insertion list library" where
  "recorder =
     \<lparr>out_c_str = (\<lambda>os s. Inr (os @ [Out_c_str s])),
      out_string = (\<lambda>os s. Inr (os @ [Out_string s])),
      out_int = (\<lambda>os i. Inr (os @ [Out_int i])),
      out_bool = (\<lambda>os b. Inr (os @ [Out_bool b]))\<rparr>"

definition recorded :: "failure + insertion list \<Rightarrow> insertion list" where
  "recorded r = (case r of Inl e \<Rightarrow> [] | Inr xs \<Rightarrow> xs)"

definition script :: "val \<Rightarrow> insertion list" where
  "script v = recorded (operator_out recorder [] v)"


lemma recorder_simps [simp]:
  "out_c_str recorder os s = Inr (os @ [Out_c_str s])"
  "out_string recorder os s = Inr (os @ [Out_string s])"
  "out_int recorder os i = Inr (os @ [Out_int i])"
  "out_bool recorder os b = Inr (os @ [Out_bool b])"
  "put_c_str recorder os s = Inr (os @ [Out_c_str (c_str s)])"
  by (simp_all add: recorder_def put_c_str_def)


lemma case_sum_same [simp]: "(case r of Inl e \<Rightarrow> Inl e | Inr x \<Rightarrow> Inr x) = r"
  by (cases r) simp_all

lemma run_single [simp]: "run lib os [x] = perform lib os x"
  by (cases "perform lib os x") simp_all


lemma perform_simps [simp]:
  "perform lib os (Out_c_str s) = out_c_str lib os s"
  "perform lib os (Out_string s) = out_string lib os s"
  "perform lib os (Out_int i) = out_int lib os i"
  "perform lib os (Out_bool b) = out_bool lib os b"
  by (simp_all add: perform_def)




















lemma decorate_string_run:
  "d \<noteq> backslash \<Longrightarrow>
   decorate_string lib os s [d]
     = run lib os [Out_c_str (c_str [d]), Out_c_str (c_str (escape_spec d s)),
         Out_c_str (c_str [d])]"
  by (simp add: decorate_string_def escaped_value_char put_c_str_def cong: sum.case_cong)


section \<open>Properties of the formatter\<close>

subsection \<open>C strings and escaping\<close>

lemma c_str_append_no_NUL: "NUL \<notin> set a \<Longrightarrow> c_str (a @ b) = a @ c_str b"
  by (induction a) (auto simp: c_str_def)

lemma c_str_escape_char: "c \<noteq> NUL \<Longrightarrow> c_str (escape_char c s) = escape_char c (c_str s)"
proof (induction s)
  case Nil
  show ?case by (simp add: escape_char_def c_str_def)
next
  case (Cons x s)
  then have IH: "takeWhile (\<lambda>c. c \<noteq> NUL) (escape_char c s) = escape_char c (takeWhile (\<lambda>c. c \<noteq> NUL) s)"
    by (simp add: c_str_def)
  have step: "escape_char c (x # t) = (if x = c then [backslash, x] else [x]) @ escape_char c t" for t
    by (simp add: escape_char_def)
  show ?case
    using Cons.prems by (simp add: c_str_def step IH) (simp add: escape_char_def)
qed

lemma c_str_escape_spec: "d \<noteq> NUL \<Longrightarrow> c_str (escape_spec d s) = escape_spec d (c_str s)"
  by (simp add: escape_spec_def c_str_escape_char)

lemma c_str_idem [simp]: "c_str (c_str s) = c_str s"
  by (simp add: c_str_def)

lemma c_str_no_NUL: "NUL \<notin> set s \<Longrightarrow> c_str s = s"
  by (induction s) (auto simp: c_str_def)

subsection \<open>Delimiters\<close>

text \<open>
  Claim C1 (default delimiters). The inserters use the string delimiter \<^verbatim>\<open>'\<close>, the
  value separator \<^verbatim>\<open>", "\<close> and the key-value separator \<^verbatim>\<open>": "\<close>; sequences
  and arrays are wrapped in [ and ], mappings in { and }, tuples in ( and ). The four set
  templates belong to the first macro group and are wrapped in [ and ] as well: a
  \<^verbatim>\<open>std::set\<close> holding 1 and 2 is written as \<^verbatim>\<open>[1, 2]\<close>, where the claim, and the
  header's comment "un-ordered homogeneous like std::set {1, 2}", say \<^verbatim>\<open>{1, 2}\<close>.
\<close>

theorem default_delimiters:
  "format alpha (Container T container)
     = ''['' @ join '', '' (map (element_text alpha [apostrophe]) container) @ '']''
   \<and> format alpha (Std_array container)
     = ''['' @ join '', '' (map (element_text alpha [apostrophe]) container) @ '']''
   \<and> format alpha (Associative A entries)
     = ''{'' @ join '', ''
         (map (\<lambda>(key, value). element_text alpha [apostrophe] key @ '': ''
                 @ element_text alpha [apostrophe] value) entries) @ ''}''
   \<and> format alpha (Std_tuple v vs)
     = ''('' @ join '', '' (map (element_text alpha [apostrophe]) (v # vs)) @ '')''
   \<and> format alpha (Container Std_set [IntV 1, IntV 2]) = ''[1, 2]''
   \<and> format alpha (Container Std_multiset [IntV 1, IntV 2]) = ''[1, 2]''
   \<and> format alpha (Container Std_unordered_set [IntV 1, IntV 2]) = ''[1, 2]''
   \<and> format alpha (Container Std_unordered_multiset [IntV 1, IntV 2]) = ''[1, 2]''"
proof -
  have "format alpha (Container T' [IntV 1, IntV 2]) = ''[1, 2]''" for T'
    by (simp add: format_Container element_text_other format_IntV int_text_def digits.simps)
  then show ?thesis
    by (simp only: format_Container format_Std_array format_Associative format_Std_tuple
        simp_thms)
qed

subsection \<open>Mappings\<close>

text \<open>
  Claim C5 (mappings), as amended. On a stream in its initial formatting state every
  entry of a mapping is written as the text of its key, then \<^verbatim>\<open>": "\<close>, then the text
  of its value; the entries are joined by \<^verbatim>\<open>", "\<close> in iteration order and wrapped in
  { and }. The text of a string-like key or value is an apostrophe, the content read as
  a C string (the characters before its first byte 0) with every backslash doubled and
  then a backslash put before every apostrophe, and an apostrophe; the text of an
  \<^verbatim>\<open>int\<close> or a \<^verbatim>\<open>bool\<close> is its own text. The mapping of "a" to 1 and "b" to 2 is
  written as \<^verbatim>\<open>{'a': 1, 'b': 2}\<close>, and the mapping of \<^verbatim>\<open>it's\<close> to \<^verbatim>\<open>a\\<close> as
  \<^verbatim>\<open>{'it\'s': 'a\\'}\<close>.
\<close>

theorem mapping_entries:
  "format alpha (Associative A entries)
     = ''{'' @ join '', ''
         (map (\<lambda>(key, value). element_text alpha [apostrophe] key @ '': ''
                 @ element_text alpha [apostrophe] value) entries) @ ''}''
   \<and> element_text alpha [apostrophe] (Std_string s)
     = [apostrophe] @ escape_char apostrophe (escape_char backslash (c_str s)) @ [apostrophe]
   \<and> element_text alpha [apostrophe] (C_string s)
     = [apostrophe] @ escape_char apostrophe (escape_char backslash (c_str s)) @ [apostrophe]
   \<and> element_text alpha [apostrophe] (IntV i) = int_text i
   \<and> element_text alpha [apostrophe] (BoolV b) = bool_text alpha b
   \<and> format alpha (Associative Std_map [(Std_string ''a'', IntV 1), (Std_string ''b'', IntV 2)])
     = ''{'' @ [apostrophe] @ ''a'' @ [apostrophe] @ '': 1, '' @ [apostrophe] @ ''b''
         @ [apostrophe] @ '': 2}''
   \<and> format alpha (Associative Std_map
        [(Std_string (''it'' @ [apostrophe] @ ''s''), Std_string (''a'' @ [backslash]))])
     = ''{'' @ [apostrophe] @ ''it'' @ [backslash, apostrophe] @ ''s'' @ [apostrophe] @ '': ''
         @ [apostrophe] @ ''a'' @ [backslash, backslash] @ [apostrophe] @ ''}''"
proof -
  have a: "format alpha (Associative Std_map [(Std_string ''a'', IntV 1), (Std_string ''b'', IntV 2)])
     = ''{'' @ [apostrophe] @ ''a'' @ [apostrophe] @ '': 1, '' @ [apostrophe] @ ''b''
         @ [apostrophe] @ '': 2}''"
    by code_simp
  have b: "format alpha (Associative Std_map
        [(Std_string (''it'' @ [apostrophe] @ ''s''), Std_string (''a'' @ [backslash]))])
     = ''{'' @ [apostrophe] @ ''it'' @ [backslash, apostrophe] @ ''s'' @ [apostrophe] @ '': ''
         @ [apostrophe] @ ''a'' @ [backslash, backslash] @ [apostrophe] @ ''}''"
    by code_simp
  have s: "element_text alpha [apostrophe] (Std_string s)
     = [apostrophe] @ escape_char apostrophe (escape_char backslash (c_str s)) @ [apostrophe]"
    by (simp add: element_text_Std_string c_str_escape_spec) (simp add: escape_spec_def)
  have c: "element_text alpha [apostrophe] (C_string s)
     = [apostrophe] @ escape_char apostrophe (escape_char backslash (c_str s)) @ [apostrophe]"
    by (simp add: element_text_C_string c_str_escape_spec) (simp add: escape_spec_def)
  have i: "element_text alpha [apostrophe] (IntV i) = int_text i"
    by (simp add: element_text_other format_IntV)
  have t: "element_text alpha [apostrophe] (BoolV b) = bool_text alpha b"
    by (simp add: element_text_other format_BoolV)
  show ?thesis
    using a b s c i t format_Associative [of alpha A entries] by blast
qed

text \<open>
  Claim C5 as stated fails for a key with an embedded byte 0: the key made of the three
  bytes a, 0, b, mapped to 1, is written as \<^verbatim>\<open>{'a': 1}\<close>, and the text between the
  apostrophes is not the escaped key.
\<close>

theorem mapping_entries_counterexample:
  "format False (Associative Std_map [(Std_string [CHR ''a'', NUL, CHR ''b''], IntV 1)])
     = ''{'' @ [apostrophe, CHR ''a'', apostrophe] @ '': 1}''
   \<and> [apostrophe, CHR ''a'', apostrophe]
     \<noteq> [apostrophe]
         @ escape_char apostrophe (escape_char backslash [CHR ''a'', NUL, CHR ''b''])
         @ [apostrophe]"
  by code_simp

subsection \<open>Elements\<close>




subsection \<open>Empty containers\<close>

text \<open>
  Claim C8 (empty containers). A decorator given an empty container inserts the opening
  delimiter and then the closing delimiter, and nothing between them: on a stream in its
  initial formatting state it writes the two delimiters. An empty sequence or array is
  written as \<^verbatim>\<open>[]\<close> and an empty mapping as \<^verbatim>\<open>{}\<close>; an empty set is written as
  \<^verbatim>\<open>[]\<close> too, where the claim says \<^verbatim>\<open>{}\<close>.
\<close>

theorem empty_containers:
  "decorate lib out os [] containerDelimiters stringDelimiter valueSeparator
     = run lib os [Out_c_str (c_str (fst containerDelimiters)),
         Out_c_str (c_str (snd containerDelimiters))]
   \<and> decorate_assoc lib out os [] containerDelimiters stringDelimiter valueSeparator
         keyValueSeparator
     = run lib os [Out_c_str (c_str (fst containerDelimiters)),
         Out_c_str (c_str (snd containerDelimiters))]
   \<and> decorate plain_stream out' os' [] containerDelimiters stringDelimiter valueSeparator
     = Inr (emit os' (c_str (fst containerDelimiters) @ c_str (snd containerDelimiters)))
   \<and> decorate_assoc plain_stream out' os' [] containerDelimiters stringDelimiter
         valueSeparator keyValueSeparator
     = Inr (emit os' (c_str (fst containerDelimiters) @ c_str (snd containerDelimiters)))
   \<and> format alpha (Container T []) = ''[]''
   \<and> format alpha (Std_array []) = ''[]''
   \<and> format alpha (Associative A []) = ''{}''
   \<and> format alpha (Container Std_set []) = ''[]''"
proof -
  have "decorate lib out os [] containerDelimiters stringDelimiter valueSeparator
     = run lib os [Out_c_str (c_str (fst containerDelimiters)),
         Out_c_str (c_str (snd containerDelimiters))]"
    by (simp add: decorate_def put_c_str_def cong: sum.case_cong)
  moreover have "decorate_assoc lib out os [] containerDelimiters stringDelimiter valueSeparator
         keyValueSeparator
     = run lib os [Out_c_str (c_str (fst containerDelimiters)),
         Out_c_str (c_str (snd containerDelimiters))]"
    by (simp add: decorate_assoc_def put_c_str_def cong: sum.case_cong)
  ultimately show ?thesis
    by (simp add: decorate_def decorate_assoc_def format_Container format_Std_array
        format_Associative)
qed

subsection \<open>Tuples and pairs\<close>

text \<open>
  Claim C9 (the tuple example), as amended. On a stream with \<^verbatim>\<open>boolalpha\<close> set,
  the tuple of 1, "foo" and true is written as \<^verbatim>\<open>(1, 'foo', true)\<close>: the components
  in order, wrapped in ( and ), joined by \<^verbatim>\<open>", "\<close>, the string between delimiters.
  On a stream without the flag, as a new stream is, it is written as
  \<^verbatim>\<open>(1, 'foo', 1)\<close>.
\<close>

theorem tuple_example_boolalpha:
  "format True (Std_tuple (IntV 1) [C_string ''foo'', BoolV True])
     = ''(1, '' @ [apostrophe] @ ''foo'' @ [apostrophe] @ '', true)''
   \<and> format False (Std_tuple (IntV 1) [C_string ''foo'', BoolV True])
     = ''(1, '' @ [apostrophe] @ ''foo'' @ [apostrophe] @ '', 1)''"
  by code_simp

text \<open>
  Claim C9 as stated fails on a stream without \<^verbatim>\<open>boolalpha\<close>: the text is not
  \<^verbatim>\<open>(1, 'foo', true)\<close>.
\<close>

theorem tuple_example_counterexample:
  "format False (Std_tuple (IntV 1) [C_string ''foo'', BoolV True])
     \<noteq> ''(1, '' @ [apostrophe] @ ''foo'' @ [apostrophe] @ '', true)''"
  by code_simp

text \<open>
  Claim C10 (pairs). The inserter for a pair does to every stream what the inserter for
  the tuple of its two members does; on a stream in its initial formatting state it
  writes the two element texts, joined by \<^verbatim>\<open>", "\<close> and wrapped in ( and ).
\<close>

theorem pair_as_tuple:
  "operator_out lib os (Std_pair first second) = operator_out lib os (Std_tuple first [second])
   \<and> script (Std_pair first second) = script (Std_tuple first [second])
   \<and> format alpha (Std_pair first second) = format alpha (Std_tuple first [second])
   \<and> format alpha (Std_pair first second)
       = ''('' @ element_text alpha [apostrophe] first @ '', ''
           @ element_text alpha [apostrophe] second @ '')''"
  by (simp add: format_Std_pair format_Std_tuple script_def)


subsection \<open>The string escaper\<close>

text \<open>
  Claim C2 (string escaper), as amended. For a delimiter character \<open>d\<close> other than
  the backslash, in the value that \<^verbatim>\<open>decorate_string\<close> builds every backslash is
  replaced by two backslashes and then every occurrence of \<open>d\<close> by a backslash and
  \<open>d\<close>, in that order, and no other character is changed. The decorator inserts the
  delimiter, that value and the delimiter, each as a C string. The text written to a
  stream in its initial formatting state is the delimiter, that value and the delimiter,
  each read as a C string: when neither the text nor the delimiter holds the byte 0, it
  is exactly the delimiter, the escaped text and the delimiter, control characters
  included; a byte 0 in the text and all that follows it are not written.
\<close>

theorem string_escaper:
  "d \<noteq> backslash \<Longrightarrow>
   escaped_value str [d] = Inr (escape_char d (escape_char backslash str))
   \<and> decorate_string lib os' str [d]
       = run lib os' [Out_c_str (c_str [d]),
           Out_c_str (c_str (escape_char d (escape_char backslash str))),
           Out_c_str (c_str [d])]
   \<and> decorate_string plain_stream os str [d]
       = Inr (emit os (c_str [d] @ c_str (escape_char d (escape_char backslash str))
                        @ c_str [d]))
   \<and> (d \<noteq> NUL \<and> NUL \<notin> set str \<longrightarrow>
        decorate_string plain_stream os str [d]
          = Inr (emit os ([d] @ escape_char d (escape_char backslash str) @ [d])))"
proof -
  assume d: "d \<noteq> backslash"
  have "c_str (escape_spec d str) = escape_spec d str" if "d \<noteq> NUL" "NUL \<notin> set str"
    using that by (simp add: c_str_escape_spec c_str_no_NUL)
  moreover have "c_str [d] = [d]" if "d \<noteq> NUL"
    using that by (simp add: c_str_def)
  moreover have "decorate_string lib os' str [d]
       = run lib os' [Out_c_str (c_str [d]),
           Out_c_str (c_str (escape_char d (escape_char backslash str))),
           Out_c_str (c_str [d])]"
    using decorate_string_run [OF d, of lib os' str] by (simp add: escape_spec_def)
  ultimately show ?thesis
    using d by (simp add: decorate_string_char escaped_value_char escape_spec_def)
qed

text \<open>
  The theorem at the text made of a letter, a line feed, a backslash and an apostrophe,
  with the apostrophe as delimiter.
\<close>

theorem string_escaper_witness:
  "apostrophe \<noteq> backslash \<and> apostrophe \<noteq> NUL
   \<and> NUL \<notin> set [CHR ''a'', CHR 0x0A, backslash, apostrophe]
   \<and> decorate_string plain_stream (empty_stream False)
        [CHR ''a'', CHR 0x0A, backslash, apostrophe] [apostrophe]
     = Inr (emit (empty_stream False)
         [apostrophe, CHR ''a'', CHR 0x0A, backslash, backslash, backslash, apostrophe,
          apostrophe])"
  using string_escaper [of apostrophe "[CHR ''a'', CHR 0x0A, backslash, apostrophe]"
      plain_stream "empty_stream False" "empty_stream False"]
  by (simp add: escape_char_def c_str_def)

text \<open>
  Claim C2 as stated fails for a text with an embedded byte 0, and for the backslash as
  delimiter. The text written for the three bytes a, 0, b is the delimiter, a and the
  delimiter, not the delimiter, the escaped text and the delimiter. With the backslash
  as delimiter \<^verbatim>\<open>regex_escape\<close> leaves the pattern a lone backslash, the constructor
  of \<^verbatim>\<open>delimRe\<close> throws and nothing is escaped.
\<close>

theorem string_escaper_counterexample:
  "decorate_string plain_stream (empty_stream False) [CHR ''a'', NUL, CHR ''b''] [apostrophe]
     = Inr (emit (empty_stream False) [apostrophe, CHR ''a'', apostrophe])
   \<and> [apostrophe, CHR ''a'', apostrophe]
     \<noteq> [apostrophe] @ escape_char apostrophe (escape_char backslash [CHR ''a'', NUL, CHR ''b''])
         @ [apostrophe]
   \<and> escaped_value [CHR ''a'', backslash] [backslash] = Inl Regex_error
   \<and> decorate_string plain_stream (empty_stream False) [CHR ''a'', backslash] [backslash]
     = Inl Regex_error"
proof -
  have "decorate_string plain_stream (empty_stream False) [CHR ''a'', NUL, CHR ''b'']
      [apostrophe]
     = Inr (emit (empty_stream False) [apostrophe, CHR ''a'', apostrophe])"
    by (simp add: decorate_string_char escape_spec_def escape_char_def c_str_def)
  moreover have "decorate_string plain_stream (empty_stream False) [CHR ''a'', backslash]
      [backslash]
     = Inl Regex_error"
    by (simp add: decorate_string_def escaped_value_backslash)
  ultimately show ?thesis
    by (simp add: escaped_value_backslash escape_char_def)
qed

subsection \<open>Escaping and the parser's unescape rule\<close>

datatype parse_error = MalformedEscape

text \<open>
  Modelled from the spec: the parser of section 4.4 is an extension the source does not
  have. Its unescape rule scans left to right, turns \<^verbatim>\<open>\\\<close> into a backslash and a
  backslash followed by the delimiter into the delimiter, and fails with
  \<^verbatim>\<open>MalformedEscape\<close> on a backslash followed by anything else.
\<close>

fun unescape :: "char \<Rightarrow> string \<Rightarrow> parse_error + string" where
  "unescape delim [] = Inr []"
| "unescape delim (c # cs) =
     (if c = backslash then
        (case cs of
           [] \<Rightarrow> Inl MalformedEscape
         | e # cs' \<Rightarrow>
             if e = backslash \<or> e = delim then map_sum id ((#) e) (unescape delim cs')
             else Inl MalformedEscape)
      else map_sum id ((#) c) (unescape delim cs))"

lemma escape_char_Cons:
  "escape_char c (x # t) = (if x = c then [backslash, x] else [x]) @ escape_char c t"
  by (simp add: escape_char_def)

lemma escape_spec_Cons:
  "d \<noteq> backslash \<Longrightarrow>
   escape_spec d (x # t)
     = (if x = backslash then [backslash, backslash]
        else if x = d then [backslash, d] else [x]) @ escape_spec d t"
  by (simp add: escape_spec_def escape_char_Cons)

lemma unescape_escape_spec: "d \<noteq> backslash \<Longrightarrow> unescape d (escape_spec d str) = Inr str"
  by (induction str) (simp_all add: escape_spec_Cons, simp add: escape_spec_def escape_char_def)

text \<open>
  Claim C3 (escaping can be undone), as amended. For every delimiter character other
  than the backslash and for every text, the escaping step of \<^verbatim>\<open>decorate_string\<close>
  returns a value, and the unescape rule applied to that value gives back the text.
\<close>

theorem unescape_escaped:
  "d \<noteq> backslash \<Longrightarrow>
   (case escaped_value str [d] of
      Inl e \<Rightarrow> False
    | Inr escaped \<Rightarrow> unescape d escaped = Inr str)"
  by (simp add: escaped_value_char unescape_escape_spec)

text \<open>
  The theorem at the apostrophe and a text holding an apostrophe, a backslash and a
  byte 0.
\<close>

theorem unescape_escaped_witness:
  "apostrophe \<noteq> backslash
   \<and> (case escaped_value [CHR ''i'', apostrophe, backslash, NUL] [apostrophe] of
        Inl e \<Rightarrow> False
      | Inr escaped \<Rightarrow> unescape apostrophe escaped = Inr [CHR ''i'', apostrophe, backslash, NUL])"
  using unescape_escaped [of apostrophe "[CHR ''i'', apostrophe, backslash, NUL]"] by simp

text \<open>
  Claim C3 as stated fails when the delimiter is the backslash (the source notes that
  the implementation is naive there): the escaping step throws, and there is no escaped
  text to unescape.
\<close>

theorem unescape_escaped_counterexample:
  "\<not> (case escaped_value [backslash] [backslash] of
        Inl e \<Rightarrow> False
      | Inr escaped \<Rightarrow> unescape backslash escaped = Inr [backslash])"
  by (simp add: escaped_value_backslash)

subsection \<open>Formatting as a function\<close>





subsection \<open>Separators of a sequence\<close>

text \<open>
  Counting the value separator \<^verbatim>\<open>", "\<close> in a written text, left to right. Outside
  a string, an opening bracket enters a container and a closing bracket leaves it; an
  apostrophe starts a string, which ends at the next apostrophe that no backslash
  escapes. \<open>depth\<close> is the number of containers entered and not left. A separator
  is at depth 0 of the output when it is outside every string and inside the outermost
  container only, that is when exactly one container is entered.
\<close>

definition open_bracket :: "char \<Rightarrow> bool" where
  "open_bracket c \<longleftrightarrow> c \<in> set ''[{(''"

definition close_bracket :: "char \<Rightarrow> bool" where
  "close_bracket c \<longleftrightarrow> c \<in> set '']})''"

fun separators :: "nat \<Rightarrow> string \<Rightarrow> nat"
and separators_in_string :: "nat \<Rightarrow> string \<Rightarrow> nat" where
  "separators depth [] = 0"
| "separators depth (c # cs) =
     (if c = apostrophe then separators_in_string depth cs
      else if open_bracket c then separators (Suc depth) cs
      else if close_bracket c then separators (depth - 1) cs
      else (if depth = 1 \<and> c = CHR '','' \<and> take 1 cs = '' '' then 1 else 0)
           + separators depth cs)"
| "separators_in_string depth [] = 0"
| "separators_in_string depth (c # cs) =
     (if c = backslash then separators_in_string depth (drop 1 cs)
      else if c = apostrophe then separators depth cs
      else separators_in_string depth cs)"

definition depth0_separators :: "string \<Rightarrow> nat" where
  "depth0_separators out = separators 0 out"


definition plain_char :: "char \<Rightarrow> bool" where
  "plain_char c \<longleftrightarrow> c \<noteq> apostrophe \<and> \<not> open_bracket c \<and> \<not> close_bracket c \<and> c \<noteq> CHR '',''"

lemma separators_plain:
  "(\<And>c. c \<in> set s \<Longrightarrow> plain_char c) \<Longrightarrow> separators k (s @ rest) = separators k rest"
  by (induction s) (simp_all add: plain_char_def)

lemma digits_plain: "c \<in> set (digits n) \<Longrightarrow> c \<in> set ''0123456789''"
proof (induction n rule: digits.induct)
  case (1 n)
  have nth: "''0123456789'' ! m \<in> set ''0123456789''" if "m < 10" for m
    using that nth_mem [of m "''0123456789''"] by simp
  show ?case
  proof (cases "n < 10")
    case True
    with 1(2) nth [of n] show ?thesis by (simp add: digits.simps [of n])
  next
    case False
    with 1 nth [of "n mod 10"] show ?thesis by (auto simp: digits.simps [of n])
  qed
qed

lemma int_text_plain: "c \<in> set (int_text i) \<Longrightarrow> plain_char c"
  using digits_plain [of c] by (auto simp: int_text_def plain_char_def open_bracket_def close_bracket_def split: if_splits)

lemma bool_text_plain: "c \<in> set (bool_text alpha b) \<Longrightarrow> plain_char c"
  by (auto simp: bool_text_def plain_char_def open_bracket_def close_bracket_def split: if_splits)

lemma separators_in_string_escape:
  "separators_in_string k (escape_spec apostrophe s @ apostrophe # rest) = separators k rest"
  by (induction s) (simp_all add: escape_spec_Cons, simp add: escape_spec_def escape_char_def)

text \<open>A text that leaves the count and the depth as they are.\<close>

definition closed_text :: "string \<Rightarrow> bool" where
  "closed_text x \<longleftrightarrow> (\<forall>k rest. 1 \<le> k \<longrightarrow> separators k (x @ rest) = separators k rest)"

lemma closed_textD: "closed_text x \<Longrightarrow> 1 \<le> k \<Longrightarrow> separators k (x @ rest) = separators k rest"
  by (simp add: closed_text_def)

lemma separators_join:
  assumes "\<And>x. x \<in> set xs \<Longrightarrow> closed_text x" and "1 \<le> k"
  shows "separators k (join '', '' xs @ rest)
       = (if k = 1 then length xs - 1 else 0) + separators k rest"
  using assms(1)
proof (induction xs)
  case Nil
  show ?case by simp
next
  case (Cons x xs)
  have x: "separators k (x @ r) = separators k r" for r
    using Cons.prems assms(2) by (intro closed_textD) simp_all
  have IH: "separators k (join '', '' xs @ rest)
       = (if k = 1 then length xs - 1 else 0) + separators k rest"
    using Cons.prems by (intro Cons.IH) simp
  show ?case
  proof (cases xs)
    case Nil
    then show ?thesis using x [of rest] by simp
  next
    case (Cons y ys)
    have "separators k (join '', '' (x # xs) @ rest)
        = separators k (x @ ('', '' @ join '', '' xs @ rest))"
      using Cons by simp
    also have "\<dots> = separators k ('', '' @ join '', '' xs @ rest)"
      by (rule x)
    also have "\<dots> = (if k = 1 then 1 else 0) + separators k (join '', '' xs @ rest)"
      by (simp add: open_bracket_def close_bracket_def)
    finally show ?thesis using IH Cons by simp
  qed
qed

lemma closed_text_brackets:
  assumes "\<And>x. x \<in> set xs \<Longrightarrow> closed_text x" and "open_bracket l" and "close_bracket r"
    and "l \<noteq> apostrophe"
  shows "closed_text ([l] @ join '', '' xs @ [r])"
  unfolding closed_text_def
proof (intro allI impI)
  fix k :: nat and rest
  assume k: "1 \<le> k"
  have "separators k (([l] @ join '', '' xs @ [r]) @ rest)
      = separators (Suc k) (join '', '' xs @ (r # rest))"
    using assms(2,4) by simp
  also have "\<dots> = separators (Suc k) (r # rest)"
    using separators_join [of xs "Suc k" "r # rest"] assms(1) k by simp
  also have "\<dots> = separators k rest"
    using assms(3) by (auto simp: close_bracket_def open_bracket_def)
  finally show "separators k (([l] @ join '', '' xs @ [r]) @ rest) = separators k rest" .
qed

lemma closed_text_string:
  "closed_text (element_text alpha [apostrophe] (Std_string s))"
  "closed_text (element_text alpha [apostrophe] (C_string s))"
  by (simp_all add: closed_text_def element_text_Std_string element_text_C_string
      c_str_escape_spec separators_in_string_escape)

lemma closed_text_entry:
  assumes "closed_text a" and "closed_text b"
  shows "closed_text (a @ '': '' @ b)"
  unfolding closed_text_def
proof (intro allI impI)
  fix k :: nat and rest
  assume k: "1 \<le> k"
  have "separators k ((a @ '': '' @ b) @ rest) = separators k ('': '' @ b @ rest)"
    using closed_textD [OF assms(1) k, of "'': '' @ b @ rest"] by simp
  also have "\<dots> = separators k (b @ rest)"
    by (simp add: open_bracket_def close_bracket_def)
  also have "\<dots> = separators k rest"
    by (rule closed_textD [OF assms(2) k])
  finally show "separators k ((a @ '': '' @ b) @ rest) = separators k rest" .
qed

lemma closed_text_element: "closed_text (element_text alpha [apostrophe] v)"
proof (induction v rule: weight.induct)
  case (1 i)
  show ?case
    by (simp add: closed_text_def element_text_other format_IntV separators_plain int_text_plain)
next
  case (2 b)
  show ?case
    by (simp add: closed_text_def element_text_other format_BoolV separators_plain bool_text_plain)
next
  case (3 s)
  show ?case by (rule closed_text_string)
next
  case (4 s)
  show ?case by (rule closed_text_string)
next
  case (5 T container)
  have "closed_text (''['' @ join '', '' (map (element_text alpha [apostrophe]) container) @ '']'')"
    by (rule closed_text_brackets) (use 5 in \<open>auto simp: open_bracket_def close_bracket_def\<close>)
  then show ?case by (simp add: element_text_other format_Container)
next
  case (6 container)
  have "closed_text (''['' @ join '', '' (map (element_text alpha [apostrophe]) container) @ '']'')"
    by (rule closed_text_brackets) (use 6 in \<open>auto simp: open_bracket_def close_bracket_def\<close>)
  then show ?case by (simp add: element_text_other format_Std_array)
next
  case (7 v vs)
  have "closed_text (''('' @ join '', '' (map (element_text alpha [apostrophe]) (v # vs)) @ '')'')"
    by (rule closed_text_brackets) (use 7 in \<open>auto simp: open_bracket_def close_bracket_def\<close>)
  then show ?case by (simp add: element_text_other format_Std_tuple)
next
  case (8 first second)
  have "closed_text (''('' @ join '', '' (map (element_text alpha [apostrophe]) [first, second]) @ '')'')"
    by (rule closed_text_brackets) (use 8 in \<open>auto simp: open_bracket_def close_bracket_def\<close>)
  then show ?case by (simp add: element_text_other format_Std_pair format_Std_tuple)
next
  case (9 T container)
  have k: "closed_text (element_text alpha [apostrophe] k)" if "(k, v) \<in> set container" for k v
    using 9(1) [of "(k, v)" k v] that by simp
  have v: "closed_text (element_text alpha [apostrophe] v)" if "(k, v) \<in> set container" for k v
    using 9(2) [of "(k, v)" k v] that by simp
  have "closed_text (''{'' @ join '', ''
         (map (\<lambda>(key, value). element_text alpha [apostrophe] key @ '': ''
                 @ element_text alpha [apostrophe] value) container) @ ''}'')"
  proof (rule closed_text_brackets)
    fix x
    assume "x \<in> set (map (\<lambda>(key, value). element_text alpha [apostrophe] key @ '': ''
                 @ element_text alpha [apostrophe] value) container)"
    then obtain key val where "(key, val) \<in> set container"
      and "x = element_text alpha [apostrophe] key @ '': '' @ element_text alpha [apostrophe] val"
      by auto
    then show "closed_text x"
      using closed_text_entry [OF k v] by blast
  qed (simp_all add: open_bracket_def close_bracket_def)
  then show ?case by (simp add: element_text_other format_Associative)
qed

lemma depth0_separators_brackets:
  assumes "open_bracket l" and "close_bracket r" and "l \<noteq> apostrophe"
  shows "depth0_separators
           ([l] @ join '', '' (map (element_text alpha [apostrophe]) container) @ [r])
       = length container - 1"
proof -
  have "separators 0 ([l] @ join '', '' (map (element_text alpha [apostrophe]) container) @ [r])
      = separators 1 (join '', '' (map (element_text alpha [apostrophe]) container) @ [r])"
    using assms(1,3) by simp
  also have "\<dots> = (length container - 1) + separators 1 [r]"
  proof -
    have "closed_text x" if "x \<in> set (map (element_text alpha [apostrophe]) container)" for x
      using that by (auto simp: closed_text_element)
    then show ?thesis
      using separators_join [of "map (element_text alpha [apostrophe]) container" 1 "[r]"]
      by (simp del: separators.simps)
  qed
  also have "separators 1 [r] = 0"
    using assms(2) by (auto simp: open_bracket_def close_bracket_def)
  finally show ?thesis by (simp add: depth0_separators_def)
qed

text \<open>
  Claim C4 (sequences). The text written for a sequence \<open>s\<close> starts with [ and ends
  with ]; between them stand the element texts with \<^verbatim>\<open>", "\<close> before every element
  but the first, and the separator occurs \<open>length s - 1\<close> times at depth 0 (no times
  for an empty sequence): separators inside nested containers and inside strings are
  not counted. The same holds for a \<^verbatim>\<open>std::array\<close>.
\<close>

theorem sequence_separators:
  "format alpha (Container T s)
     = ''['' @ join '', '' (map (element_text alpha [apostrophe]) s) @ '']''
   \<and> hd (format alpha (Container T s)) = CHR ''[''
   \<and> last (format alpha (Container T s)) = CHR '']''
   \<and> depth0_separators (format alpha (Container T s)) = length s - 1
   \<and> hd (format alpha (Std_array s)) = CHR ''[''
   \<and> last (format alpha (Std_array s)) = CHR '']''
   \<and> depth0_separators (format alpha (Std_array s)) = length s - 1"
  using depth0_separators_brackets [of "CHR ''[''" "CHR '']''" alpha s]
  by (simp add: format_Container format_Std_array open_bracket_def close_bracket_def)

end
